theory Spec2Isabelle
  imports Main "HOL-Library.Word" "HOL-Library.AList" "HOL-Library.Sublist"
    "HOL-Library.Signed_Division"
begin

section \<open>The Redis store of valkeyrie: data model\<close>

text \<open>
  The embedding follows \<^verbatim>\<open>redis.go\<close>. A Go \<^verbatim>\<open>string\<close> and a \<^verbatim>\<open>[]byte\<close> are
  both a \<^typ>\<open>string\<close> (a list of bytes), a \<^verbatim>\<open>uint64\<close> is a \<^typ>\<open>64 word\<close>, a
  \<^verbatim>\<open>time.Duration\<close> is an \<^typ>\<open>int\<close> of nanoseconds, a pointer that may be nil
  is an \<^typ>\<open>'a option\<close>, and a Go \<^verbatim>\<open>error\<close> result is an \<^typ>\<open>'e option\<close> (None is
  nil) or the left summand of a sum.
\<close>

text \<open>\<^verbatim>\<open>store.KVPair\<close>.\<close>

record KVPair =
  Key :: string
  Value :: string
  LastIndex :: "64 word"

text \<open>The zero value \<^verbatim>\<open>store.KVPair{}\<close>.\<close>

definition emptyKV :: KVPair where
  "emptyKV = \<lparr>Key = [], Value = [], LastIndex = 0\<rparr>"

text \<open>\<^verbatim>\<open>store.WriteOptions\<close>: only the field the store reads.\<close>

record WriteOptions =
  TTL :: int

text \<open>
  An error of the go-redis client: the sentinel \<^verbatim>\<open>redis.Nil\<close>, or any other error
  with the text its \<^verbatim>\<open>Error()\<close> method returns.
\<close>

datatype rerr = redis_Nil | Failure string

fun Error :: "rerr \<Rightarrow> string" where
  "Error redis_Nil = ''redis: nil''"
| "Error (Failure m) = m"

text \<open>
  The errors the package returns: the three sentinels of \<^verbatim>\<open>valkeyrie/store\<close>, the
  package's own \<^verbatim>\<open>ErrAbortTryLock\<close>, \<^verbatim>\<open>ctx.Err()\<close>, an error of the client handed
  on as it is, and an error of a codec.
\<close>

datatype error =
    ErrKeyNotFound
  | ErrKeyModified
  | ErrKeyExists
  | ErrAbortTryLock
  | CtxErr
  | Underlying rerr
  | CodecErr string

text \<open>
  The \<^verbatim>\<open>Codec\<close> interface (its declaration and its implementations are not part of
  \<^verbatim>\<open>redis.go\<close>): \<^verbatim>\<open>Encode\<close> takes a pointer that may be nil, \<^verbatim>\<open>Decode\<close> fills
  the pair it is given.
\<close>

record Codec =
  Encode :: "KVPair option \<Rightarrow> error + string"
  Decode :: "string \<Rightarrow> KVPair \<Rightarrow> error + KVPair"

subsection \<open>The server behind the client\<close>

text \<open>
  An entry of the keyspace is the stored blob with the expiry argument of the command
  that wrote it: the \<^verbatim>\<open>time.Duration\<close> given to \<^verbatim>\<open>SET\<close>/\<^verbatim>\<open>SETNX\<close> (0 is no
  expiry), or the text of seconds a script was given. Removing an entry whose time is
  up is an action of the server, hence of the environment.
\<close>

datatype expiry = Dur int | Sec string

type_synonym entry = "string \<times> expiry"

type_synonym keyspace = "(string \<times> entry) list"

text \<open>
  The client with the server it talks to: the keyspace and the state of the connection.
  With \<open>fault = Some m\<close> every command fails with the error text \<open>m\<close> and leaves
  the keyspace as it is.
\<close>

record client =
  keyspace :: keyspace
  fault :: "string option"

definition client_Set :: "client \<Rightarrow> string \<Rightarrow> string \<Rightarrow> int \<Rightarrow> rerr option \<times> client" where
  "client_Set c k v ttl =
     (case fault c of
        Some m \<Rightarrow> (Some (Failure m), c)
      | None \<Rightarrow> (None, c\<lparr>keyspace := AList.update k (v, Dur ttl) (keyspace c)\<rparr>))"

text \<open>The reply of \<^verbatim>\<open>Get(...).Bytes()\<close>.\<close>

definition client_Get :: "client \<Rightarrow> string \<Rightarrow> rerr + string" where
  "client_Get c k =
     (case fault c of
        Some m \<Rightarrow> Inl (Failure m)
      | None \<Rightarrow> (case map_of (keyspace c) k of None \<Rightarrow> Inl redis_Nil | Some (v, _) \<Rightarrow> Inr v))"

text \<open>The duration \<^verbatim>\<open>redis.KeepTTL\<close> of the client library.\<close>

definition KeepTTL :: int where
  "KeepTTL = - 1"

text \<open>
  A \<^verbatim>\<open>BoolCmd\<close>: its value (false when the command failed) and its error. The
  client sends \<^verbatim>\<open>SETNX\<close> for the expiry 0, \<^verbatim>\<open>SET .. KEEPTTL NX\<close> for
  \<^verbatim>\<open>KeepTTL\<close> (taken by a server from 6.0 on), and \<^verbatim>\<open>SET .. PX/EX n NX\<close> for
  any other expiry, with \<open>n\<close> the expiry in milliseconds or seconds, at least 1 for
  a positive one: for a negative expiry \<open>n\<close> is not positive and the server refuses the
  command.
\<close>

definition client_SetNX :: "client \<Rightarrow> string \<Rightarrow> string \<Rightarrow> int \<Rightarrow> (bool \<times> rerr option) \<times> client" where
  "client_SetNX c k v ttl =
     (case fault c of
        Some m \<Rightarrow> ((False, Some (Failure m)), c)
      | None \<Rightarrow>
          if ttl < 0 \<and> ttl \<noteq> KeepTTL
          then ((False, Some (Failure ''ERR invalid expire time in set'')), c)
          else
            (case map_of (keyspace c) k of
               Some _ \<Rightarrow> ((False, None), c)
             | None \<Rightarrow> ((True, None), c\<lparr>keyspace := AList.update k (v, Dur ttl) (keyspace c)\<rparr>)))"

definition client_Del :: "client \<Rightarrow> string list \<Rightarrow> rerr option \<times> client" where
  "client_Del c ks =
     (case fault c of
        Some m \<Rightarrow> (Some (Failure m), c)
      | None \<Rightarrow> (None, c\<lparr>keyspace := filter (\<lambda>(k, _). k \<notin> set ks) (keyspace c)\<rparr>))"

text \<open>The reply of \<^verbatim>\<open>Exists(...).Result()\<close>: the count is 0 when the command failed.\<close>

definition client_Exists :: "client \<Rightarrow> string \<Rightarrow> int \<times> rerr option" where
  "client_Exists c k =
     (case fault c of
        Some m \<Rightarrow> (0, Some (Failure m))
      | None \<Rightarrow> (case map_of (keyspace c) k of None \<Rightarrow> (0, None) | Some _ \<Rightarrow> (1, None)))"

text \<open>
  The glob matching of the server (\<^verbatim>\<open>stringmatchlen\<close> of Redis, case sensitive), which
  \<^verbatim>\<open>SCAN .. MATCH\<close> applies to each key, pattern first: \<^verbatim>\<open>*\<close> stands for any
  run of characters, \<^verbatim>\<open>?\<close> for any one character, \<^verbatim>\<open>[..]\<close> for one character of
  a class, and a backslash takes the next character literally. A pattern that is not
  empty does not match the empty string.

  \<open>glob_class\<close> reads a class after its opening bracket (and after \<^verbatim>\<open>^\<close>): whether
  the character is in it, and how many characters of the pattern the class takes, the
  closing bracket included. Characters are compared as bytes.
\<close>

fun glob_class :: "string \<Rightarrow> char \<Rightarrow> bool \<times> nat" where
  "glob_class [] c = (False, 0)"
| "glob_class (p # ps) c =
     (if p = CHR 0x5C \<and> ps \<noteq> [] then
        (case glob_class (tl ps) c of (m, n) \<Rightarrow> (m \<or> hd ps = c, n + 2))
      else if p = CHR '']'' then (False, 1)
      else if 2 \<le> length ps \<and> hd ps = CHR ''-'' then
        (case glob_class (drop 2 ps) c of
           (m, n) \<Rightarrow>
             (m \<or> (min (of_char p) (of_char (ps ! 1)) \<le> (of_char c :: nat)
                   \<and> (of_char c :: nat) \<le> max (of_char p) (of_char (ps ! 1))), n + 3))
      else (case glob_class ps c of (m, n) \<Rightarrow> (m \<or> p = c, n + 1)))"

function stringmatchlen :: "string \<Rightarrow> string \<Rightarrow> bool" where
  "stringmatchlen [] s = (s = [])"
| "stringmatchlen (p # ps) [] = False"
| "stringmatchlen (p # ps) (c # s) =
     (if p = CHR ''*'' then
        (if dropWhile (\<lambda>x. x = CHR ''*'') ps = [] then True
         else stringmatchlen (dropWhile (\<lambda>x. x = CHR ''*'') ps) (c # s)
              \<or> stringmatchlen (CHR ''*'' # dropWhile (\<lambda>x. x = CHR ''*'') ps) s)
      else if p = CHR ''?'' then
        (if s = [] then dropWhile (\<lambda>x. x = CHR ''*'') ps = [] else stringmatchlen ps s)
      else if p = CHR ''['' then
        (let neg = (ps \<noteq> [] \<and> hd ps = CHR ''^'');
             body = (if neg then tl ps else ps);
             rest = drop (snd (glob_class body c)) body
         in if fst (glob_class body c) = neg then False
            else if s = [] then dropWhile (\<lambda>x. x = CHR ''*'') rest = []
            else stringmatchlen rest s)
      else if p = CHR 0x5C \<and> ps \<noteq> [] then
        (if hd ps \<noteq> c then False
         else if s = [] then dropWhile (\<lambda>x. x = CHR ''*'') (tl ps) = []
         else stringmatchlen (tl ps) s)
      else
        (if p \<noteq> c then False
         else if s = [] then dropWhile (\<lambda>x. x = CHR ''*'') ps = []
         else stringmatchlen ps s))"
  by pat_completeness auto
termination
  by (relation "measure (\<lambda>(p, s). length p + length s)")
     (auto simp: length_dropWhile_le le_imp_less_Suc)

declare stringmatchlen.simps(3) [simp del]

text \<open>
  \<^verbatim>\<open>SCAN cursor MATCH match COUNT count\<close>: the model walks the keyspace in pages of
  \<open>count\<close> entries, in the order of the list, with the position as cursor, and
  replies with the keys of the page that match and the next cursor, which is 0 after the
  last page. (A server pages by hash buckets; the loop of \<^verbatim>\<open>keys\<close> relies only on the
  cursor coming back to 0.)
\<close>

definition client_Scan :: "client \<Rightarrow> nat \<Rightarrow> string \<Rightarrow> nat \<Rightarrow> rerr + (string list \<times> nat)" where
  "client_Scan c cursor match count =
     (case fault c of
        Some m \<Rightarrow> Inl (Failure m)
      | None \<Rightarrow>
          Inr (filter (stringmatchlen match) (take count (drop cursor (map fst (keyspace c)))),
               if cursor + count < length (keyspace c) then cursor + count else 0))"

text \<open>\<^verbatim>\<open>MGET\<close>: one reply for each key, nil for a key that is absent.\<close>

definition client_MGet :: "client \<Rightarrow> string list \<Rightarrow> rerr + string option list" where
  "client_MGet c ks =
     (case fault c of
        Some m \<Rightarrow> Inl (Failure m)
      | None \<Rightarrow> Inr (map (\<lambda>k. map_option fst (map_of (keyspace c) k)) ks))"

text \<open>
  The two command names \<^verbatim>\<open>cmdCAS\<close> and \<^verbatim>\<open>cmdCAD\<close> are constants declared outside
  \<^verbatim>\<open>redis.go\<close>; only that they are two values is used.
\<close>

datatype cmd = cmdCAS | cmdCAD

text \<open>
  The server-side script, \<^verbatim>\<open>redis.NewScript(luaScript())\<close>, is a parameter: from
  the command, its arguments and the keyspace to the error text of the script (or
  success) and the keyspace it leaves. The server runs it as one indivisible step.
\<close>

type_synonym script = "cmd \<Rightarrow> string list \<Rightarrow> keyspace \<Rightarrow> (string + unit) \<times> keyspace"

definition script_Run :: "script \<Rightarrow> client \<Rightarrow> cmd \<Rightarrow> string list \<Rightarrow> rerr option \<times> client" where
  "script_Run s c cm args =
     (case fault c of
        Some m \<Rightarrow> (Some (Failure m), c)
      | None \<Rightarrow>
          (case s cm args (keyspace c) of
             (Inl m, ks) \<Rightarrow> (Some (Failure m), c\<lparr>keyspace := ks\<rparr>)
           | (Inr _, ks) \<Rightarrow> (None, c\<lparr>keyspace := ks\<rparr>)))"

text \<open>\<^verbatim>\<open>Store\<close>, without the client, whose state is passed on its own.\<close>

record Store =
  script :: script
  codec :: Codec

section \<open>Helpers\<close>

text \<open>\<^verbatim>\<open>strings.TrimPrefix\<close> and \<^verbatim>\<open>strings.Contains\<close>.\<close>

definition TrimPrefix :: "string \<Rightarrow> string \<Rightarrow> string" where
  "TrimPrefix s p = (if prefix p s then drop (length p) s else s)"

fun Contains :: "string \<Rightarrow> string \<Rightarrow> bool" where
  "Contains [] substr = (substr = [])"
| "Contains (c # s) substr = (prefix substr (c # s) \<or> Contains s substr)"

definition normalize' :: "string \<Rightarrow> string" where
  "normalize' key = TrimPrefix key ''/''"

definition scanRegex :: "string \<Rightarrow> string" where
  "scanRegex directory = directory @ ''*''"

text \<open>\<^verbatim>\<open>fmt.Sprintf("%d", n)\<close>.\<close>

fun digits :: "nat \<Rightarrow> string" where
  "digits n = (if n < 10 then [''0123456789'' ! n] else digits (n div 10) @ [''0123456789'' ! (n mod 10)])"

declare digits.simps [simp del]

definition Sprintf_d :: "int \<Rightarrow> string" where
  "Sprintf_d n = (if n < 0 then CHR ''-'' # digits (nat (- n)) else digits (nat n))"

text \<open>Go's integer division truncates towards zero: \<open>sdiv\<close>.\<close>

definition formatSec :: "int \<Rightarrow> string" where
  "formatSec dur = Sprintf_d (dur sdiv 1000000000)"

text \<open>
  \<^verbatim>\<open>time.Now()\<close> is a parameter \<open>now\<close>, the clock reading in nanoseconds since the
  epoch; \<^verbatim>\<open>Nanosecond()\<close> is its offset within the second, in \<open>[0, 999999999]\<close>.
\<close>

definition Nanosecond :: "int \<Rightarrow> int" where
  "Nanosecond now = now mod 1000000000"

definition sequenceNum :: "int \<Rightarrow> 64 word" where
  "sequenceNum now = word_of_int (Nanosecond now)"

definition noExpiration :: int where
  "noExpiration = 0"

definition defaultLockTTL :: int where
  "defaultLockTTL = 60 * 1000000000"

section \<open>Plain operations\<close>

definition expirationAfter :: "WriteOptions option \<Rightarrow> int" where
  "expirationAfter opts =
     (case opts of
        None \<Rightarrow> noExpiration
      | Some ops \<Rightarrow> if TTL ops \<noteq> 0 then TTL ops else noExpiration)"

definition setTTL :: "Store \<Rightarrow> string \<Rightarrow> KVPair \<Rightarrow> int \<Rightarrow> client \<Rightarrow> error option \<times> client" where
  "setTTL r key val ttl c =
     (case Encode (codec r) (Some val) of
        Inl err \<Rightarrow> (Some err, c)
      | Inr valStr \<Rightarrow>
          (case client_Set c key valStr ttl of (e, c') \<Rightarrow> (map_option Underlying e, c')))"

definition Put :: "Store \<Rightarrow> string \<Rightarrow> string \<Rightarrow> WriteOptions option \<Rightarrow> int \<Rightarrow> client \<Rightarrow> error option \<times> client" where
  "Put r key val opts now c =
     setTTL r (normalize' key) \<lparr>Key = key, Value = val, LastIndex = sequenceNum now\<rparr>
       (expirationAfter opts) c"

definition get :: "Store \<Rightarrow> client \<Rightarrow> string \<Rightarrow> error + KVPair" where
  "get r c key =
     (case client_Get c key of
        Inl err \<Rightarrow> (if err = redis_Nil then Inl ErrKeyNotFound else Inl (Underlying err))
      | Inr reply \<Rightarrow>
          (case Decode (codec r) reply emptyKV of
             Inl err \<Rightarrow> Inl err
           | Inr val \<Rightarrow> Inr (if Key val = [] then val\<lparr>Key := key\<rparr> else val)))"

definition Get :: "Store \<Rightarrow> string \<Rightarrow> client \<Rightarrow> error + KVPair" where
  "Get r key c = get r c (normalize' key)"

definition Delete :: "Store \<Rightarrow> string \<Rightarrow> client \<Rightarrow> error option \<times> client" where
  "Delete r key c = (case client_Del c [normalize' key] of (e, c') \<Rightarrow> (map_option Underlying e, c'))"

definition Exists :: "Store \<Rightarrow> string \<Rightarrow> client \<Rightarrow> bool \<times> error option" where
  "Exists r key c = (case client_Exists c (normalize' key) of (count, e) \<Rightarrow> (count \<noteq> 0, map_option Underlying e))"

section \<open>Conditional writes\<close>

definition runScript :: "Store \<Rightarrow> client \<Rightarrow> cmd \<Rightarrow> string list \<Rightarrow> error option \<times> client" where
  "runScript r c cm args =
     (case script_Run (script r) c cm args of
        (None, c') \<Rightarrow> (None, c')
      | (Some err, c') \<Rightarrow>
          (if Contains (Error err) ''redis: key is not found'' then (Some ErrKeyNotFound, c')
           else if Contains (Error err) ''redis: value has been changed'' then (Some ErrKeyModified, c')
           else (Some (Underlying err), c')))"

definition setNX :: "Store \<Rightarrow> string \<Rightarrow> KVPair \<Rightarrow> int \<Rightarrow> client \<Rightarrow> error option \<times> client" where
  "setNX r key val expiration c =
     (case Encode (codec r) (Some val) of
        Inl err \<Rightarrow> (Some err, c)
      | Inr valBlob \<Rightarrow>
          (case client_SetNX c key valBlob expiration of
             ((v, _), c') \<Rightarrow> if \<not> v then (Some ErrKeyExists, c') else (None, c')))"

definition cas :: "Store \<Rightarrow> string \<Rightarrow> KVPair option \<Rightarrow> KVPair \<Rightarrow> string \<Rightarrow> client \<Rightarrow> error option \<times> client" where
  "cas r key oldPair newPair secInStr c =
     (case Encode (codec r) (Some newPair) of
        Inl err \<Rightarrow> (Some err, c)
      | Inr newVal \<Rightarrow>
          (case Encode (codec r) oldPair of
             Inl err \<Rightarrow> (Some err, c)
           | Inr oldVal \<Rightarrow> runScript r c cmdCAS [key, oldVal, newVal, secInStr]))"

definition cad :: "Store \<Rightarrow> string \<Rightarrow> KVPair option \<Rightarrow> client \<Rightarrow> error option \<times> client" where
  "cad r key old c =
     (case Encode (codec r) old of
        Inl err \<Rightarrow> (Some err, c)
      | Inr oldVal \<Rightarrow> runScript r c cmdCAD [key, oldVal])"

text \<open>The result of \<^verbatim>\<open>AtomicPut\<close> is Go's triple, with the client as it is left.\<close>

definition AtomicPut ::
  "Store \<Rightarrow> string \<Rightarrow> string \<Rightarrow> KVPair option \<Rightarrow> WriteOptions option \<Rightarrow> int \<Rightarrow> client
     \<Rightarrow> (bool \<times> KVPair option \<times> error option) \<times> client" where
  "AtomicPut r key val previous opts now c =
     (let newKV = \<lparr>Key = key, Value = val, LastIndex = sequenceNum now\<rparr>;
          nKey = normalize' key
      in if previous = None then
           (case setNX r nKey newKV (expirationAfter opts) c of
              (Some err, c') \<Rightarrow> ((False, None, Some err), c')
            | (None, c') \<Rightarrow> ((True, Some newKV, None), c'))
         else
           (case cas r nKey previous newKV (formatSec (expirationAfter opts)) c of
              (Some err, c') \<Rightarrow> ((False, None, Some err), c')
            | (None, c') \<Rightarrow> ((True, Some newKV, None), c')))"

definition AtomicDelete :: "Store \<Rightarrow> string \<Rightarrow> KVPair option \<Rightarrow> client \<Rightarrow> (bool \<times> error option) \<times> client" where
  "AtomicDelete r key previous c =
     (case cad r (normalize' key) previous c of
        (Some err, c') \<Rightarrow> ((False, Some err), c')
      | (None, c') \<Rightarrow> ((True, None), c'))"

section \<open>Listing and deleting a directory\<close>

text \<open>The loop of \<^verbatim>\<open>keys\<close>, with \<^verbatim>\<open>defaultCount = 10\<close> and \<^verbatim>\<open>endCursor = 0\<close>.\<close>

function keys_loop :: "client \<Rightarrow> string \<Rightarrow> nat \<Rightarrow> string list \<Rightarrow> error + string list" where
  "keys_loop c regex nextCursor allKeys =
     (if nextCursor \<noteq> 0 then
        (case client_Scan c nextCursor regex 10 of
           Inl err \<Rightarrow> Inl (Underlying err)
         | Inr (ks, next) \<Rightarrow> keys_loop c regex next (allKeys @ ks))
      else Inr allKeys)"
  by pat_completeness auto
termination
  by (relation "measure (\<lambda>(c, regex, cur, acc). if cur = 0 then 0 else Suc (length (keyspace c) - cur))")
     (auto simp: client_Scan_def split: option.splits if_splits)

declare keys_loop.simps [simp del]

definition keys :: "Store \<Rightarrow> client \<Rightarrow> string \<Rightarrow> error + string list" where
  "keys r c regex =
     (case client_Scan c 0 regex 10 of
        Inl err \<Rightarrow> Inl (Underlying err)
      | Inr (ks, nextCursor) \<Rightarrow>
          (case keys_loop c regex nextCursor ([] @ ks) of
             Inl err \<Rightarrow> Inl err
           | Inr allKeys \<Rightarrow> if length allKeys = 0 then Inl ErrKeyNotFound else Inr allKeys))"

text \<open>The loop of \<^verbatim>\<open>mget\<close> over the replies, each with the key at its index.\<close>

fun mget_loop :: "Store \<Rightarrow> string \<Rightarrow> (string \<times> string option) list \<Rightarrow> KVPair list \<Rightarrow> error + KVPair list" where
  "mget_loop r directory [] pairs = Inr pairs"
| "mget_loop r directory ((k, reply) # rest) pairs =
     (let sreply = (case reply of Some v \<Rightarrow> v | None \<Rightarrow> [])
      in if sreply = [] then mget_loop r directory rest pairs
         else
           (case Decode (codec r) sreply emptyKV of
              Inl err \<Rightarrow> Inl err
            | Inr pair \<Rightarrow>
                (let pair' = (if Key pair = [] then pair\<lparr>Key := k\<rparr> else pair)
                 in if normalize' (Key pair') \<noteq> directory
                    then mget_loop r directory rest (pairs @ [pair'])
                    else mget_loop r directory rest pairs)))"

definition mget :: "Store \<Rightarrow> client \<Rightarrow> string \<Rightarrow> string list \<Rightarrow> error + KVPair list" where
  "mget r c directory ks =
     (case client_MGet c ks of
        Inl err \<Rightarrow> Inl (Underlying err)
      | Inr replies \<Rightarrow> mget_loop r directory (zip ks replies) [])"

definition list :: "Store \<Rightarrow> client \<Rightarrow> string \<Rightarrow> error + KVPair list" where
  "list r c directory =
     (case keys r c (scanRegex directory) of
        Inl err \<Rightarrow> Inl err
      | Inr allKeys \<Rightarrow> mget r c directory allKeys)"

definition List' :: "Store \<Rightarrow> string \<Rightarrow> client \<Rightarrow> error + KVPair list" where
  "List' r directory c = list r c (normalize' directory)"

definition DeleteTree :: "Store \<Rightarrow> string \<Rightarrow> client \<Rightarrow> error option \<times> client" where
  "DeleteTree r directory c =
     (case keys r c (scanRegex (normalize' directory)) of
        Inl err \<Rightarrow> (Some err, c)
      | Inr allKeys \<Rightarrow> (case client_Del c allKeys of (e, c') \<Rightarrow> (map_option Underlying e, c')))"

section \<open>Watching\<close>

text \<open>
  What a \<^verbatim>\<open>getter\<close> returns and a \<^verbatim>\<open>pusher\<close> takes is an \<^verbatim>\<open>interface{}\<close>: nil, a
  \<^verbatim>\<open>*store.KVPair\<close> or a \<^verbatim>\<open>[]*store.KVPair\<close>.
\<close>

datatype iface = INil | IPair KVPair | IPairs "KVPair list"

text \<open>\<^verbatim>\<open>redis.Message\<close>.\<close>

record Message =
  Channel :: string
  Payload :: string


text \<open>
  The loop runs against its environment: each message of \<^verbatim>\<open>msgCh\<close> comes with whether
  \<^verbatim>\<open>ctx.Done()\<close> is ready when the message is taken, and with the state \<open>w\<close> the getter
  reads when it is called for that message. A getter returns Go's pair of a value and an
  error; a pusher returns what it sends on the watch channel. The result is what was
  sent, in order, with the error the loop returns.
\<close>

fun watchLoop_range ::
  "('w \<Rightarrow> iface \<times> error option) \<Rightarrow> (iface \<Rightarrow> 'o list) \<Rightarrow> (Message \<times> bool \<times> 'w) list
     \<Rightarrow> 'o list \<times> error option" where
  "watchLoop_range getter pusher [] = ([], None)"
| "watchLoop_range getter pusher ((m, done, w) # msgCh) =
     (if done then ([], Some CtxErr)
      else
        (case getter w of
           (pair, err) \<Rightarrow>
             if err \<noteq> None \<and> err \<noteq> Some ErrKeyNotFound then ([], err)
             else
               (let pair' = (if err = Some ErrKeyNotFound \<and> (Payload m = ''expired'' \<or> Payload m = ''del'')
                             then IPair emptyKV else pair)
                in case watchLoop_range getter pusher msgCh of
                     (sent, res) \<Rightarrow> (pusher pair' @ sent, res))))"

definition watchLoop ::
  "('w \<Rightarrow> iface \<times> error option) \<Rightarrow> (iface \<Rightarrow> 'o list) \<Rightarrow> 'w \<Rightarrow> (Message \<times> bool \<times> 'w) list
     \<Rightarrow> 'o list \<times> error option" where
  "watchLoop getter pusher w0 msgCh =
     (case getter w0 of
        (pair, err) \<Rightarrow>
          if err \<noteq> None \<and> err \<noteq> Some ErrKeyNotFound then ([], err)
          else
            (let pair' = (if err = Some ErrKeyNotFound then IPair emptyKV else pair)
             in case watchLoop_range getter pusher msgCh of
                  (sent, res) \<Rightarrow> (pusher pair' @ sent, res)))"

text \<open>The getter and the pusher of \<^verbatim>\<open>Watch\<close>, and those of \<^verbatim>\<open>WatchTree\<close>.\<close>

definition Watch_get :: "Store \<Rightarrow> string \<Rightarrow> client \<Rightarrow> iface \<times> error option" where
  "Watch_get r nKey c = (case get r c nKey of Inl err \<Rightarrow> (INil, Some err) | Inr pair \<Rightarrow> (IPair pair, None))"

definition Watch_push :: "iface \<Rightarrow> KVPair list" where
  "Watch_push v = (case v of IPair val \<Rightarrow> [val] | _ \<Rightarrow> [])"

definition WatchTree_get :: "Store \<Rightarrow> string \<Rightarrow> client \<Rightarrow> iface \<times> error option" where
  "WatchTree_get r nKey c = (case list r c nKey of Inl err \<Rightarrow> (INil, Some err) | Inr pair \<Rightarrow> (IPairs pair, None))"

definition WatchTree_push :: "iface \<Rightarrow> KVPair list list" where
  "WatchTree_push v = (case v of IPairs p \<Rightarrow> [p] | _ \<Rightarrow> [])"

text \<open>
  \<^verbatim>\<open>Watch\<close> returns the channel at once, with a nil error; the model gives what the
  goroutine sends on the channel before closing it, with the error it logs, from the
  store \<open>c0\<close> at the first read and the messages the subscription delivers.
\<close>

definition Watch :: "Store \<Rightarrow> string \<Rightarrow> client \<Rightarrow> (Message \<times> bool \<times> client) list \<Rightarrow> KVPair list \<times> error option" where
  "Watch r k c0 msgCh = watchLoop (Watch_get r (normalize' k)) Watch_push c0 msgCh"

definition WatchTree :: "Store \<Rightarrow> string \<Rightarrow> client \<Rightarrow> (Message \<times> bool \<times> client) list \<Rightarrow> KVPair list list \<times> error option" where
  "WatchTree r directory c0 msgCh = watchLoop (WatchTree_get r (normalize' directory)) WatchTree_push c0 msgCh"

section \<open>The lock\<close>

text \<open>\<^verbatim>\<open>store.LockOptions\<close>: the two fields \<^verbatim>\<open>NewLock\<close> reads, \<^verbatim>\<open>TTL\<close> and \<^verbatim>\<open>Value\<close>.\<close>

record LockOptions =
  TTL' :: int
  Value' :: string

text \<open>
  \<^verbatim>\<open>redisLock\<close>, without the store and without the channel \<^verbatim>\<open>unlockCh\<close>, whose one
  use is modelled in \<open>Unlock\<close>.
\<close>

record redisLock =
  last' :: "KVPair option"
  key :: string
  value' :: string
  ttl :: int

definition NewLock :: "string \<Rightarrow> LockOptions option \<Rightarrow> redisLock" where
  "NewLock k opts =
     \<lparr>last' = None,
      key = k,
      value' = (case opts of None \<Rightarrow> [] | Some ops \<Rightarrow> if length (Value' ops) \<noteq> 0 then Value' ops else []),
      ttl = (case opts of None \<Rightarrow> defaultLockTTL | Some ops \<Rightarrow> if TTL' ops \<noteq> 0 then TTL' ops else defaultLockTTL)\<rparr>"

text \<open>
  The conditional write that \<^verbatim>\<open>tryLock\<close> and \<^verbatim>\<open>holdLock\<close> both issue:
  \<^verbatim>\<open>l.redis.AtomicPut(ctx, l.key, l.value, l.last, &store.WriteOptions{TTL: l.ttl})\<close>.
\<close>

abbreviation lockWrite ::
  "Store \<Rightarrow> redisLock \<Rightarrow> int \<Rightarrow> client \<Rightarrow> (bool \<times> KVPair option \<times> error option) \<times> client" where
  "lockWrite r l now c \<equiv> AtomicPut r (key l) (value' l) (last' l) (Some \<lparr>TTL = ttl l\<rparr>) now c"







text \<open>The closure \<^verbatim>\<open>hold\<close> of \<^verbatim>\<open>holdLock\<close>.\<close>

definition hold :: "Store \<Rightarrow> redisLock \<Rightarrow> int \<Rightarrow> client \<Rightarrow> error option \<times> redisLock \<times> client" where
  "hold r l now c =
     (case lockWrite r l now c of
        ((_, item, err), c') \<Rightarrow> (err, if err = None then l\<lparr>last' := item\<rparr> else l, c'))"

text \<open>
  What the \<^verbatim>\<open>select\<close> of \<^verbatim>\<open>holdLock\<close> takes in one round: a tick of the heartbeat, with
  the clock and the store the renewal meets, the signal on \<^verbatim>\<open>unlockCh\<close>, or
  \<^verbatim>\<open>ctx.Done()\<close>.
\<close>

datatype hsel = Heartbeat int client | UnlockSignal | HoldCtxDone

text \<open>
  The task is at its \<^verbatim>\<open>select\<close>, or it has returned (and the deferred
  \<^verbatim>\<open>close(lockHeld)\<close> has signalled that the lock is gone), or \<^verbatim>\<open>time.NewTicker\<close>
  has panicked, which it does on an interval that is not positive.
\<close>

datatype hstatus = Renewing | Returned | Panicked

record holdRun =
  lock :: redisLock
  status :: hstatus
  issued :: nat
  stores :: "client list"

text \<open>The interval given to \<^verbatim>\<open>time.NewTicker\<close>.\<close>

definition heartbeat :: "redisLock \<Rightarrow> int" where
  "heartbeat l = ttl l sdiv 3"

text \<open>
  The loop of \<^verbatim>\<open>holdLock\<close>: \<open>n\<close> counts the conditional writes issued, \<open>cs\<close> collects
  the store after each of them.
\<close>

fun holdLock_loop :: "Store \<Rightarrow> redisLock \<Rightarrow> hsel list \<Rightarrow> nat \<Rightarrow> client list \<Rightarrow> holdRun" where
  "holdLock_loop r l [] n cs = \<lparr>lock = l, status = Renewing, issued = n, stores = cs\<rparr>"
| "holdLock_loop r l (Heartbeat now c # rounds) n cs =
     (case hold r l now c of
        (Some err, l', c') \<Rightarrow> \<lparr>lock = l', status = Returned, issued = Suc n, stores = cs @ [c']\<rparr>
      | (None, l', c') \<Rightarrow> holdLock_loop r l' rounds (Suc n) (cs @ [c']))"
| "holdLock_loop r l (UnlockSignal # rounds) n cs = \<lparr>lock = l, status = Returned, issued = n, stores = cs\<rparr>"
| "holdLock_loop r l (HoldCtxDone # rounds) n cs = \<lparr>lock = l, status = Returned, issued = n, stores = cs\<rparr>"

definition holdLock :: "Store \<Rightarrow> redisLock \<Rightarrow> hsel list \<Rightarrow> holdRun" where
  "holdLock r l rounds =
     (if heartbeat l \<le> 0 then \<lparr>lock = l, status = Panicked, issued = 0, stores = []\<rparr>
      else holdLock_loop r l rounds 0 [])"

text \<open>
  \<^verbatim>\<open>Unlock\<close> first sends on the unbuffered \<^verbatim>\<open>unlockCh\<close>: the send is taken only by a
  renewal task at its \<^verbatim>\<open>select\<close> (\<open>renewing\<close>), which then returns; with no such
  task the send never completes and \<^verbatim>\<open>Unlock\<close> does not return (\<open>None\<close>).
\<close>

definition Unlock :: "Store \<Rightarrow> redisLock \<Rightarrow> bool \<Rightarrow> client \<Rightarrow> (error option \<times> redisLock \<times> client) option" where
  "Unlock r l renewing c =
     (if \<not> renewing then None
      else
        (case AtomicDelete r (key l) (last' l) c of
           ((_, Some err), c') \<Rightarrow> Some (Some err, l, c')
         | ((_, None), c') \<Rightarrow> Some (None, l\<lparr>last' := None\<rparr>, c')))"

section \<open>A script and a codec to run the model on\<close>

text \<open>
  Modelled from the spec: the script that \<^verbatim>\<open>luaScript()\<close> returns is not part of
  \<^verbatim>\<open>redis.go\<close>. The spec (4.1) has the check-and-set succeed only if the stored
  Record's version token equals the expected prior Record's, fail with Modified if it
  differs and with NotFound if the key is absent, and gives the check-and-delete the same
  failures. The two error texts are the ones \<^verbatim>\<open>runScript\<close> looks for; \<open>version\<close>
  reads the version token of an encoded Record.
\<close>

definition luaScript :: "(string \<Rightarrow> 64 word) \<Rightarrow> script" where
  "luaScript version cm args ks =
     (case (cm, args) of
        (cmdCAS, [k, old, new, sec]) \<Rightarrow>
          (case map_of ks k of
             None \<Rightarrow> (Inl ''redis: key is not found'', ks)
           | Some (cur, _) \<Rightarrow>
               if version cur = version old then (Inr (), AList.update k (new, Sec sec) ks)
               else (Inl ''redis: value has been changed'', ks))
      | (cmdCAD, [k, old]) \<Rightarrow>
          (case map_of ks k of
             None \<Rightarrow> (Inl ''redis: key is not found'', ks)
           | Some (cur, _) \<Rightarrow>
               if version cur = version old then (Inr (), AList.delete k ks)
               else (Inl ''redis: value has been changed'', ks))
      | _ \<Rightarrow> (Inl ''ERR wrong number of arguments'', ks))"

text \<open>
  A codec that writes a Record as its version token in decimal, a colon, and the
  value, and leaves the key out.
\<close>

definition readNat :: "string \<Rightarrow> nat" where
  "readNat ds = foldl (\<lambda>n d. 10 * n + (of_char d - 48)) 0 ds"

definition tokenOf :: "string \<Rightarrow> 64 word" where
  "tokenOf blob = word_of_nat (readNat (takeWhile (\<lambda>d. d \<noteq> CHR '':'') blob))"

definition tokenCodec :: Codec where
  "tokenCodec =
     \<lparr>Encode = (\<lambda>p. case p of
                  None \<Rightarrow> Inl (CodecErr ''KVPair is nil'')
                | Some kv \<Rightarrow> Inr (digits (unat (LastIndex kv)) @ '':'' @ Value kv)),
      Decode = (\<lambda>b kv.
                  if CHR '':'' \<in> set b
                  then Inr (kv\<lparr>Value := tl (dropWhile (\<lambda>d. d \<noteq> CHR '':'') b), LastIndex := tokenOf b\<rparr>)
                  else Inl (CodecErr ''no version token''))\<rparr>"

definition tokenStore :: Store where
  "tokenStore = \<lparr>script = luaScript tokenOf, codec = tokenCodec\<rparr>"

text \<open>A server that answers, with the given keyspace.\<close>

definition server :: "keyspace \<Rightarrow> client" where
  "server ks = \<lparr>keyspace = ks, fault = None\<rparr>"

text \<open>
  A lock on \<^verbatim>\<open>/lock\<close> with the default lease, a store in which another holder has
  the key, and the lock as it stands after its lease was lost: \<^verbatim>\<open>last\<close> still set.
\<close>

definition otherHolds :: client where
  "otherHolds = server [(''lock'', ''7:other'', Dur 60000000000)]"

definition myLock :: redisLock where
  "myLock = NewLock ''/lock'' (Some \<lparr>TTL' = 0, Value' = ''me''\<rparr>)"

definition lostLock :: redisLock where
  "lostLock = myLock\<lparr>last' := Some \<lparr>Key = ''/lock'', Value = ''me'', LastIndex = 3\<rparr>\<rparr>"

text \<open>The same lock when held with version token 5, and the store that goes with it.\<close>

definition held5 :: redisLock where
  "held5 = myLock\<lparr>last' := Some \<lparr>Key = ''/lock'', Value = ''me'', LastIndex = 5\<rparr>\<rparr>"

definition mine5 :: client where
  "mine5 = server [(''lock'', ''5:me'', Dur 60000000000)]"

section \<open>Facts about the helpers\<close>

lemma normalize_slash: "normalize' (CHR ''/'' # k) = k"
  by (simp add: normalize'_def TrimPrefix_def)

lemma normalize_plain: "\<not> prefix ''/'' k \<Longrightarrow> normalize' k = k"
  by (simp add: normalize'_def TrimPrefix_def)

lemma map_of_update_same: "map_of (AList.update k v al) k = Some v"
  by (simp add: update_conv')

lemma uint_sequenceNum: "uint (sequenceNum now) = now mod 1000000000"
proof -
  have "0 \<le> now mod 1000000000" "now mod 1000000000 < 1000000000" by simp_all
  then have "now mod 1000000000 mod 2 ^ 64 = now mod 1000000000"
    by (intro mod_pos_pos_trivial) simp_all
  then show ?thesis
    by (simp add: sequenceNum_def Nanosecond_def uint_word_of_int)
qed

lemmas run_defs = AtomicPut_def setNX_def cas_def cad_def runScript_def script_Run_def client_SetNX_def
  KeepTTL_def
  AtomicDelete_def tokenStore_def tokenCodec_def tokenOf_def readNat_def luaScript_def server_def NewLock_def
  defaultLockTTL_def expirationAfter_def noExpiration_def normalize'_def TrimPrefix_def formatSec_def
  Sprintf_d_def digits.simps sequenceNum_def Nanosecond_def otherHolds_def myLock_def lostLock_def

lemmas run_defs2 = run_defs held5_def mine5_def hold_def


lemma map_of_filter_neq: "map_of (filter (\<lambda>(k', _). k' \<noteq> k) al) k = None"
  by (induction al) auto

lemma Put_ok:
  assumes "Put r ka v opts now c = (None, c')"
  shows "\<exists>blob. Encode (codec r) (Some \<lparr>Key = ka, Value = v, LastIndex = sequenceNum now\<rparr>) = Inr blob
           \<and> fault c = None
           \<and> c' = c\<lparr>keyspace := AList.update (normalize' ka) (blob, Dur (expirationAfter opts)) (keyspace c)\<rparr>"
  using assms
  by (auto simp: Put_def setTTL_def client_Set_def split: sum.splits option.splits)

lemma slash_ops_same:
  assumes plain: "\<not> prefix ''/'' k"
  shows "Get r (CHR ''/'' # k) = Get r k \<and> Exists r (CHR ''/'' # k) = Exists r k
       \<and> Delete r (CHR ''/'' # k) = Delete r k \<and> AtomicDelete r (CHR ''/'' # k) = AtomicDelete r k
       \<and> List' r (CHR ''/'' # k) = List' r k \<and> DeleteTree r (CHR ''/'' # k) = DeleteTree r k
       \<and> Watch r (CHR ''/'' # k) = Watch r k \<and> WatchTree r (CHR ''/'' # k) = WatchTree r k"
  using plain
  by (simp add: fun_eq_iff Get_def Exists_def Delete_def AtomicDelete_def List'_def DeleteTree_def
      Watch_def WatchTree_def normalize_slash normalize_plain)

section \<open>Conditional create\<close>



text \<open>
  C4: an error of the store that is none of the three conditions is to reach the caller
  as it is. With the connection refused, \<^verbatim>\<open>AtomicPut\<close> with a nil previous returns
  \<^verbatim>\<open>ErrKeyExists\<close>, since \<^verbatim>\<open>setNX\<close> reads only the value of the reply; the same call
  with a previous pair, which goes through \<^verbatim>\<open>runScript\<close>, returns the store's error.
\<close>

theorem AtomicPut_create_hides_store_error:
  "AtomicPut tokenStore ''/lock'' ''v'' None None 5
      ((server [])\<lparr>fault := Some ''dial tcp 127.0.0.1:6379: connect: connection refused''\<rparr>)
     = ((False, None, Some ErrKeyExists),
        (server [])\<lparr>fault := Some ''dial tcp 127.0.0.1:6379: connect: connection refused''\<rparr>)
   \<and> fst (AtomicPut tokenStore ''/lock'' ''v'' (Some \<lparr>Key = ''/lock'', Value = ''v'', LastIndex = 3\<rparr>) None 5
      ((server [])\<lparr>fault := Some ''dial tcp 127.0.0.1:6379: connect: connection refused''\<rparr>))
     = (False, None, Some (Underlying (Failure ''dial tcp 127.0.0.1:6379: connect: connection refused'')))"
  by (simp add: AtomicPut_def setNX_def cas_def runScript_def script_Run_def client_SetNX_def
      tokenStore_def tokenCodec_def server_def)

section \<open>Version tokens\<close>

text \<open>
  C5 (as amended): a successful \<^verbatim>\<open>AtomicPut\<close> returns, and a successful \<^verbatim>\<open>Put\<close>
  stores, the new pair with the version token read from the clock at the write: the
  nanosecond within the second, a number below \<open>10^9\<close>. Between two clock readings in
  the same second the tokens do not decrease.
\<close>

theorem version_token_is_nanosecond_of_write:
  "(AtomicPut r k v previous opts now c = ((True, item, err), c') \<longrightarrow>
      map_option LastIndex item = Some (sequenceNum now))
 \<and> (Put r k v opts now c = (None, c') \<longrightarrow>
      (\<exists>blob. Encode (codec r) (Some \<lparr>Key = k, Value = v, LastIndex = sequenceNum now\<rparr>) = Inr blob
            \<and> map_of (keyspace c') (normalize' k) = Some (blob, Dur (expirationAfter opts))))
 \<and> uint (sequenceNum now) = now mod 1000000000
 \<and> (t1 \<le> t2 \<and> t1 div 1000000000 = t2 div 1000000000 \<longrightarrow> sequenceNum t1 \<le> sequenceNum t2)"
proof (intro conjI impI)
  assume "AtomicPut r k v previous opts now c = ((True, item, err), c')"
  then show "map_option LastIndex item = Some (sequenceNum now)"
    by (auto simp: AtomicPut_def Let_def split: if_splits prod.splits option.splits)
next
  assume "Put r k v opts now c = (None, c')"
  from Put_ok [OF this]
  show "\<exists>blob. Encode (codec r) (Some \<lparr>Key = k, Value = v, LastIndex = sequenceNum now\<rparr>) = Inr blob
            \<and> map_of (keyspace c') (normalize' k) = Some (blob, Dur (expirationAfter opts))"
    by (auto simp: map_of_update_same)
next
  show "uint (sequenceNum now) = now mod 1000000000" by (rule uint_sequenceNum)
next
  assume a: "t1 \<le> t2 \<and> t1 div 1000000000 = t2 div 1000000000"
  have "t1 mod 1000000000 = t1 - 1000000000 * (t1 div 1000000000)"
       "t2 mod 1000000000 = t2 - 1000000000 * (t2 div 1000000000)"
    by (simp_all add: minus_mult_div_eq_mod)
  with a have "t1 mod 1000000000 \<le> t2 mod 1000000000" by simp
  then show "sequenceNum t1 \<le> sequenceNum t2"
    by (simp add: word_le_def uint_sequenceNum)
qed

theorem version_token_is_nanosecond_of_write_witness:
  "map_option LastIndex (fst (snd (fst (AtomicPut tokenStore ''a'' ''1'' None None 1000000007 (server [])))))
     = Some (sequenceNum 1000000007)
 \<and> map_of (keyspace (snd (Put tokenStore ''a'' ''1'' None 1000000007 (server [])))) ''a'' = Some (''7:1'', Dur 0)
 \<and> uint (sequenceNum 1000000007) = 7
 \<and> sequenceNum 1000000007 \<le> sequenceNum 1000000009"
proof -
  have a: "AtomicPut tokenStore ''a'' ''1'' None None 1000000007 (server [])
      = ((True, fst (snd (fst (AtomicPut tokenStore ''a'' ''1'' None None 1000000007 (server [])))), None),
         snd (AtomicPut tokenStore ''a'' ''1'' None None 1000000007 (server [])))"
    by (simp add: AtomicPut_def setNX_def client_SetNX_def tokenStore_def tokenCodec_def server_def
        expirationAfter_def noExpiration_def)
  have p: "Put tokenStore ''a'' ''1'' None 1000000007 (server [])
      = (None, snd (Put tokenStore ''a'' ''1'' None 1000000007 (server [])))"
    by (simp add: Put_def setTTL_def client_Set_def tokenStore_def tokenCodec_def server_def)
  have enc: "Encode (codec tokenStore) (Some \<lparr>Key = ''a'', Value = ''1'', LastIndex = sequenceNum 1000000007\<rparr>) = Inr ''7:1''"
    by (simp add: tokenStore_def tokenCodec_def sequenceNum_def Nanosecond_def digits.simps)
  have n: "normalize' ''a'' = ''a''" by (simp add: normalize_plain)
  have t: "(1000000007::int) \<le> 1000000009 \<and> (1000000007::int) div 1000000000 = 1000000009 div 1000000000"
    by simp
  show ?thesis
    using version_token_is_nanosecond_of_write [where r = tokenStore and k = "''a''" and v = "''1''"
        and previous = None and opts = None and now = 1000000007 and c = "server []"
        and item = "fst (snd (fst (AtomicPut tokenStore ''a'' ''1'' None None 1000000007 (server []))))"
        and err = None
        and c' = "snd (AtomicPut tokenStore ''a'' ''1'' None None 1000000007 (server []))"
        and ?t1.0 = 1000000007 and ?t2.0 = 1000000009]
      version_token_is_nanosecond_of_write [where r = tokenStore and k = "''a''" and v = "''1''"
        and previous = None and opts = None and now = 1000000007 and c = "server []"
        and c' = "snd (Put tokenStore ''a'' ''1'' None 1000000007 (server []))"
        and ?t1.0 = 1000000007 and ?t2.0 = 1000000009]
      a p t
    by (auto simp: enc n expirationAfter_def noExpiration_def)
qed

text \<open>
  The claim as it is written fails across a second boundary: of two successive writes,
  one nanosecond apart, the later one gets the smaller token.
\<close>

theorem version_token_decreases_counterexample:
  "fst (AtomicPut tokenStore ''a'' ''1'' None None 1999999999 (server []))
     = (True, Some \<lparr>Key = ''a'', Value = ''1'', LastIndex = 999999999\<rparr>, None)
 \<and> fst (AtomicPut tokenStore ''b'' ''2'' None None 2000000000
        (snd (AtomicPut tokenStore ''a'' ''1'' None None 1999999999 (server []))))
     = (True, Some \<lparr>Key = ''b'', Value = ''2'', LastIndex = 0\<rparr>, None)
 \<and> \<not> (999999999 :: 64 word) \<le> 0"
  by (simp add: AtomicPut_def setNX_def client_SetNX_def tokenStore_def tokenCodec_def server_def
      sequenceNum_def Nanosecond_def normalize'_def TrimPrefix_def expirationAfter_def noExpiration_def)

section \<open>Keys and the leading slash\<close>

text \<open>
  C10 (as amended): every operation addresses the store under \<open>normalize' key\<close>, the key
  with one leading slash removed. For a key \<open>k\<close> that does not itself begin with a
  slash, \<open>k\<close> and \<open>/k\<close> are the same entry: after a successful \<^verbatim>\<open>Put\<close> under either,
  \<^verbatim>\<open>Get\<close> and \<^verbatim>\<open>Exists\<close> under either see the blob that was written, \<^verbatim>\<open>Delete\<close>
  under either removes it, and the operations that take only a key are equal on the two.
\<close>

theorem leading_slash_same_entry:
  assumes plain: "\<not> prefix ''/'' k"
    and ka_in: "ka \<in> {k, CHR ''/'' # k}" and kb_in: "kb \<in> {k, CHR ''/'' # k}"
    and put: "Put r ka v opts now c = (None, c')"
  shows "normalize' ka = k \<and> normalize' kb = k
       \<and> (\<exists>blob. Encode (codec r) (Some \<lparr>Key = ka, Value = v, LastIndex = sequenceNum now\<rparr>) = Inr blob
            \<and> map_of (keyspace c') k = Some (blob, Dur (expirationAfter opts))
            \<and> Get r kb c' = (case Decode (codec r) blob emptyKV of
                                Inl e \<Rightarrow> Inl e
                              | Inr kv \<Rightarrow> Inr (if Key kv = [] then kv\<lparr>Key := k\<rparr> else kv)))
       \<and> Exists r kb c' = (True, None)
       \<and> (\<exists>c''. Delete r kb c' = (None, c'') \<and> Exists r ka c'' = (False, None)
              \<and> Get r ka c'' = Inl ErrKeyNotFound)
       \<and> Get r (CHR ''/'' # k) = Get r k \<and> Exists r (CHR ''/'' # k) = Exists r k
       \<and> Delete r (CHR ''/'' # k) = Delete r k \<and> AtomicDelete r (CHR ''/'' # k) = AtomicDelete r k
       \<and> List' r (CHR ''/'' # k) = List' r k \<and> DeleteTree r (CHR ''/'' # k) = DeleteTree r k
       \<and> Watch r (CHR ''/'' # k) = Watch r k \<and> WatchTree r (CHR ''/'' # k) = WatchTree r k"
proof -
  have n: "normalize' ka = k" "normalize' kb = k"
    using plain ka_in kb_in by (auto simp: normalize_slash normalize_plain)
  from Put_ok [OF put] obtain blob where
    enc: "Encode (codec r) (Some \<lparr>Key = ka, Value = v, LastIndex = sequenceNum now\<rparr>) = Inr blob"
    and up: "fault c = None"
    and c': "c' = c\<lparr>keyspace := AList.update k (blob, Dur (expirationAfter opts)) (keyspace c)\<rparr>"
    by (auto simp: n)
  have m: "map_of (keyspace c') k = Some (blob, Dur (expirationAfter opts))" and up': "fault c' = None"
    by (simp_all add: c' map_of_update_same up)
  have g: "Get r kb c' = (case Decode (codec r) blob emptyKV of
                            Inl e \<Rightarrow> Inl e
                          | Inr kv \<Rightarrow> Inr (if Key kv = [] then kv\<lparr>Key := k\<rparr> else kv))"
    by (simp add: Get_def get_def client_Get_def n m up')
  have e: "Exists r kb c' = (True, None)"
    by (simp add: Exists_def client_Exists_def n m up')
  have d: "Delete r kb c' = (None, c'\<lparr>keyspace := filter (\<lambda>(k', _). k' \<notin> set [k]) (keyspace c')\<rparr>)"
    by (simp add: Delete_def client_Del_def n up')
  have e2: "Exists r ka (c'\<lparr>keyspace := filter (\<lambda>(k', _). k' \<notin> set [k]) (keyspace c')\<rparr>) = (False, None)"
    by (simp add: Exists_def client_Exists_def n up' map_of_filter_neq)
  have g2: "Get r ka (c'\<lparr>keyspace := filter (\<lambda>(k', _). k' \<notin> set [k]) (keyspace c')\<rparr>) = Inl ErrKeyNotFound"
    by (simp add: Get_def get_def client_Get_def n up' map_of_filter_neq)
  show ?thesis using n enc m g e d e2 g2 slash_ops_same [OF plain, of r] by blast
qed

theorem leading_slash_same_entry_witness:
  "Get tokenStore ''k'' (snd (Put tokenStore ''/k'' ''v'' None 5 (server [])))
     = Inr \<lparr>Key = ''k'', Value = ''v'', LastIndex = 5\<rparr>
 \<and> Exists tokenStore ''/k'' (snd (Put tokenStore ''k'' ''v'' None 5 (server []))) = (True, None)"
proof -
  have plain: "\<not> prefix ''/'' ''k''" by simp
  have p1: "Put tokenStore ''/k'' ''v'' None 5 (server []) = (None, snd (Put tokenStore ''/k'' ''v'' None 5 (server [])))"
    by (simp add: Put_def setTTL_def client_Set_def tokenStore_def tokenCodec_def server_def)
  have p2: "Put tokenStore ''k'' ''v'' None 5 (server []) = (None, snd (Put tokenStore ''k'' ''v'' None 5 (server [])))"
    by (simp add: Put_def setTTL_def client_Set_def tokenStore_def tokenCodec_def server_def)
  have enc: "Encode (codec tokenStore) (Some \<lparr>Key = k, Value = ''v'', LastIndex = sequenceNum 5\<rparr>) = Inr ''5:v''" for k
    by (simp add: tokenStore_def tokenCodec_def sequenceNum_def Nanosecond_def digits.simps)
  have dec: "Decode (codec tokenStore) ''5:v'' emptyKV = Inr \<lparr>Key = [], Value = ''v'', LastIndex = 5\<rparr>"
    by (simp add: tokenStore_def tokenCodec_def tokenOf_def readNat_def emptyKV_def)
  show ?thesis
    using leading_slash_same_entry [OF plain _ _ p1, of "''k''"]
      leading_slash_same_entry [OF plain _ _ p2, of "''/k''"]
    by (auto simp: enc dec)
qed

text \<open>
  The claim as it is written fails for a key that begins with a slash: a \<^verbatim>\<open>Put\<close>
  under \<open>//x\<close> is stored at \<open>/x\<close>, while \<^verbatim>\<open>Get\<close> and \<^verbatim>\<open>Exists\<close> under \<open>/x\<close> look
  at \<open>x\<close>.
\<close>

theorem double_slash_counterexample:
  "Put tokenStore ''//x'' ''v'' None 5 (server []) = (None, server [(''/x'', ''5:v'', Dur 0)])
 \<and> Get tokenStore ''/x'' (server [(''/x'', ''5:v'', Dur 0)]) = Inl ErrKeyNotFound
 \<and> Exists tokenStore ''/x'' (server [(''/x'', ''5:v'', Dur 0)]) = (False, None)"
  by (simp add: Put_def setTTL_def client_Set_def Get_def get_def client_Get_def Exists_def client_Exists_def
      tokenStore_def tokenCodec_def server_def sequenceNum_def Nanosecond_def digits.simps
      normalize'_def TrimPrefix_def expirationAfter_def noExpiration_def)

section \<open>Directories\<close>









section \<open>The watch loop\<close>

text \<open>A stream that has not ended goes on with the messages that follow.\<close>

lemma watchLoop_range_append:
  "watchLoop_range g p (xs @ ys) =
     (case watchLoop_range g p xs of
        (sent, Some e) \<Rightarrow> (sent, Some e)
      | (sent, None) \<Rightarrow> (sent @ fst (watchLoop_range g p ys), snd (watchLoop_range g p ys)))"
  by (induction g p xs rule: watchLoop_range.induct)
     (auto split: prod.splits option.splits if_splits)

lemma watchLoop_append:
  "watchLoop g p w0 (xs @ ys) =
     (case watchLoop g p w0 xs of
        (sent, Some e) \<Rightarrow> (sent, Some e)
      | (sent, None) \<Rightarrow> (sent @ fst (watchLoop_range g p ys), snd (watchLoop_range g p ys)))"
  by (auto simp: watchLoop_def watchLoop_range_append Let_def split: prod.splits option.splits if_splits)

text \<open>
  C6: the stream of \<^verbatim>\<open>Watch(key)\<close> starts with the snapshot of a direct read, ahead of
  whatever the messages produce: when the read gives a pair, that pair is the first
  delivery; when the server answers and the key is absent, the first delivery is the
  empty pair, and with no message it is all that is delivered, with no error.
\<close>

theorem Watch_first_delivery:
  "(get r c0 (normalize' k) = Inr pair \<longrightarrow>
      Watch r k c0 msgCh = (pair # fst (watchLoop_range (Watch_get r (normalize' k)) Watch_push msgCh),
                           snd (watchLoop_range (Watch_get r (normalize' k)) Watch_push msgCh)))
 \<and> (fault c0 = None \<and> map_of (keyspace c0) (normalize' k) = None \<longrightarrow>
      Watch r k c0 msgCh = (emptyKV # fst (watchLoop_range (Watch_get r (normalize' k)) Watch_push msgCh),
                           snd (watchLoop_range (Watch_get r (normalize' k)) Watch_push msgCh))
    \<and> Watch r k c0 [] = ([emptyKV], None))"
  by (auto simp: Watch_def watchLoop_def Watch_get_def Watch_push_def get_def client_Get_def Let_def
      split: prod.splits)

theorem Watch_first_delivery_witness:
  "Watch tokenStore ''/k'' (server []) [] = ([emptyKV], None)
 \<and> Watch tokenStore ''/k'' (server [(''k'', ''1:v'', Dur 0)]) [] = ([\<lparr>Key = ''k'', Value = ''v'', LastIndex = 1\<rparr>], None)"
proof -
  have g: "get tokenStore (server [(''k'', ''1:v'', Dur 0)]) (normalize' ''/k'') = Inr \<lparr>Key = ''k'', Value = ''v'', LastIndex = 1\<rparr>"
    by (simp add: get_def client_Get_def server_def normalize_slash tokenStore_def tokenCodec_def
        tokenOf_def readNat_def emptyKV_def)
  have a: "fault (server []) = None \<and> map_of (keyspace (server [])) (normalize' ''/k'') = None"
    by (simp add: server_def)
  show ?thesis
    using Watch_first_delivery [of tokenStore "server [(''k'', ''1:v'', Dur 0)]" "''/k''" "\<lparr>Key = ''k'', Value = ''v'', LastIndex = 1\<rparr>" "[]"]
      Watch_first_delivery [of tokenStore "server []" "''/k''" _ "[]"] g a
    by simp
qed


text \<open>
  C7 (as amended): take a stream that is alive (the loop has not returned) when a
  message arrives, and whose context is not done when the message is taken. The loop
  reads the state again. If the read reports \<^verbatim>\<open>ErrKeyNotFound\<close> and the payload is
  \<^verbatim>\<open>expired\<close> or \<^verbatim>\<open>del\<close>, it hands the empty pair to the pusher, which for
  \<^verbatim>\<open>Watch\<close> delivers it, and goes on; with another payload it hands on what the read
  returned; a read without error is handed on as it is; a read that fails with any
  other error ends the stream with that error and the messages that follow are not
  looked at. A message taken when the context is done ends the stream with the
  context's error, without a read.
\<close>

theorem watchLoop_event:
  assumes alive: "watchLoop getter pusher w0 before = (sent, None)"
    and rest: "watchLoop_range getter pusher after = (sent', res)"
  shows "(getter w = (p, Some ErrKeyNotFound) \<and> (Payload m = ''expired'' \<or> Payload m = ''del'') \<longrightarrow>
            watchLoop getter pusher w0 (before @ (m, False, w) # after)
              = (sent @ pusher (IPair emptyKV) @ sent', res))
       \<and> (getter w = (p, Some ErrKeyNotFound) \<and> Payload m \<noteq> ''expired'' \<and> Payload m \<noteq> ''del'' \<longrightarrow>
            watchLoop getter pusher w0 (before @ (m, False, w) # after) = (sent @ pusher p @ sent', res))
       \<and> (getter w = (p, None) \<longrightarrow>
            watchLoop getter pusher w0 (before @ (m, False, w) # after) = (sent @ pusher p @ sent', res))
       \<and> (getter w = (p, Some e) \<and> e \<noteq> ErrKeyNotFound \<longrightarrow>
            watchLoop getter pusher w0 (before @ (m, False, w) # after) = (sent, Some e))
       \<and> watchLoop getter pusher w0 (before @ (m, True, w) # after) = (sent, Some CtxErr)
       \<and> Watch_push (IPair emptyKV) = [emptyKV]
       \<and> (get r c nKey = Inl e \<longrightarrow> Watch_get r nKey c = (INil, Some e))"
  using alive rest
  by (auto simp: watchLoop_append Watch_push_def Watch_get_def)



theorem watchLoop_event_witness:
  "Watch tokenStore ''k'' (server [(''k'', ''1:v'', Dur 0)])
     [(\<lparr>Channel = ''__keyspace@0__:k'', Payload = ''del''\<rparr>, False, server [])]
     = ([\<lparr>Key = ''k'', Value = ''v'', LastIndex = 1\<rparr>, emptyKV], None)
 \<and> Watch tokenStore ''k'' (server [(''k'', ''1:v'', Dur 0)])
     [(\<lparr>Channel = ''__keyspace@0__:k'', Payload = ''set''\<rparr>, False, (server [])\<lparr>fault := Some ''EOF''\<rparr>),
      (\<lparr>Channel = ''__keyspace@0__:k'', Payload = ''set''\<rparr>, False, server [(''k'', ''2:w'', Dur 0)])]
     = ([\<lparr>Key = ''k'', Value = ''v'', LastIndex = 1\<rparr>], Some (Underlying (Failure ''EOF'')))"
proof -
  let ?g = "Watch_get tokenStore (normalize' ''k'')"
  have alive: "watchLoop ?g Watch_push (server [(''k'', ''1:v'', Dur 0)]) []
      = ([\<lparr>Key = ''k'', Value = ''v'', LastIndex = 1\<rparr>], None)"
    by (simp add: watchLoop_def Watch_get_def Watch_push_def get_def client_Get_def server_def normalize_plain
        tokenStore_def tokenCodec_def tokenOf_def readNat_def emptyKV_def)
  have rest: "watchLoop_range ?g Watch_push [] = ([], None)" by simp
  have rest2: "watchLoop_range ?g Watch_push
      [(\<lparr>Channel = ''__keyspace@0__:k'', Payload = ''set''\<rparr>, False, server [(''k'', ''2:w'', Dur 0)])]
      = ([\<lparr>Key = ''k'', Value = ''w'', LastIndex = 2\<rparr>], None)"
    by (simp add: Watch_get_def Watch_push_def get_def client_Get_def server_def normalize_plain
        tokenStore_def tokenCodec_def tokenOf_def readNat_def emptyKV_def)
  have gone: "?g (server []) = (INil, Some ErrKeyNotFound)"
    by (simp add: Watch_get_def get_def client_Get_def server_def)
  have broken: "?g ((server [])\<lparr>fault := Some ''EOF''\<rparr>) = (INil, Some (Underlying (Failure ''EOF'')))"
    by (simp add: Watch_get_def get_def client_Get_def server_def)
  show ?thesis
    using watchLoop_event [OF alive rest, of "server []" INil "\<lparr>Channel = ''__keyspace@0__:k'', Payload = ''del''\<rparr>"]
      watchLoop_event [OF alive rest2, of "(server [])\<lparr>fault := Some ''EOF''\<rparr>" INil _ "Underlying (Failure ''EOF'')"]
      gone broken
    by (simp add: Watch_def)
qed


text \<open>
  The claim as it is written fails on a message taken when the context is done: there
  is no read and no empty snapshot. It also fails for a stream of \<^verbatim>\<open>WatchTree\<close>, whose
  pusher takes lists only: when the last key of the directory is deleted, nothing is
  delivered for the message.
\<close>

theorem watchLoop_event_counterexample:
  "Watch tokenStore ''k'' (server [(''k'', ''1:v'', Dur 0)])
     [(\<lparr>Channel = ''__keyspace@0__:k'', Payload = ''del''\<rparr>, True, server [])]
     = ([\<lparr>Key = ''k'', Value = ''v'', LastIndex = 1\<rparr>], Some CtxErr)
 \<and> WatchTree tokenStore ''d'' (server [(''d/a'', ''1:v'', Dur 0)])
     [(\<lparr>Channel = ''__keyspace@0__:d/a'', Payload = ''del''\<rparr>, False, server [])]
     = ([[\<lparr>Key = ''d/a'', Value = ''v'', LastIndex = 1\<rparr>]], None)"
  by (simp add: Watch_def WatchTree_def watchLoop_def Watch_get_def Watch_push_def WatchTree_get_def
      WatchTree_push_def get_def list_def keys_def mget_def client_MGet_def client_Scan_def keys_loop.simps
      client_Get_def server_def normalize_plain scanRegex_def stringmatchlen.simps(3)
      tokenStore_def tokenCodec_def tokenOf_def readNat_def emptyKV_def)

section \<open>Acquiring the lock\<close>








section \<open>Renewing the lock\<close>

lemma holdLock_loop_append:
  "holdLock_loop r l (before @ rounds) n cs =
     (if status (holdLock_loop r l before n cs) = Renewing
      then holdLock_loop r (lock (holdLock_loop r l before n cs)) rounds
             (issued (holdLock_loop r l before n cs)) (stores (holdLock_loop r l before n cs))
      else holdLock_loop r l before n cs)"
  by (induction r l before n cs rule: holdLock_loop.induct)
     (auto split: prod.splits option.splits)

lemma hold_fixes:
  "hold r l t s = (err, l', c') \<Longrightarrow> key l' = key l \<and> value' l' = value' l \<and> ttl l' = ttl l"
  by (auto simp: hold_def split: prod.splits if_splits)

lemma holdLock_loop_fixes:
  "key (lock (holdLock_loop r l rounds n cs)) = key l
 \<and> value' (lock (holdLock_loop r l rounds n cs)) = value' l
 \<and> ttl (lock (holdLock_loop r l rounds n cs)) = ttl l"
  by (induction r l rounds n cs rule: holdLock_loop.induct)
     (auto split: prod.splits option.splits dest: hold_fixes)

lemma heartbeat_third:
  assumes "0 < heartbeat l"
  shows "heartbeat l * 3 \<le> ttl l \<and> ttl l < heartbeat l * 3 + 3"
proof -
  have pos: "0 < ttl l"
    using assms by (auto simp: heartbeat_def signed_divide_int_def sgn_if split: if_splits)
  then have "heartbeat l = ttl l div 3"
    by (simp add: heartbeat_def signed_divide_int_def)
  then show ?thesis by presburger
qed

lemma AtomicPut_shape:
  "AtomicPut r k v previous opts now c = ((ok, item, err), c') \<Longrightarrow>
     (err = None \<longrightarrow> ok \<and> item = Some \<lparr>Key = k, Value = v, LastIndex = sequenceNum now\<rparr>)
   \<and> (err \<noteq> None \<longrightarrow> \<not> ok \<and> item = None)"
  by (auto simp: AtomicPut_def Let_def split: if_splits prod.splits option.splits)

lemma AtomicPut_cas_script:
  assumes "previous = Some p" "fault c = None" "Encode (codec r) (Some p) = Inr old"
    "Encode (codec r) (Some \<lparr>Key = k, Value = v, LastIndex = sequenceNum now\<rparr>) = Inr new"
  shows "snd (AtomicPut r k v previous opts now c)
       = c\<lparr>keyspace := snd (script r cmdCAS [normalize' k, old, new, formatSec (expirationAfter opts)] (keyspace c))\<rparr>"
  using assms
  by (auto simp: AtomicPut_def cas_def runScript_def script_Run_def Let_def split: prod.splits sum.splits option.splits)

text \<open>
  C3: the renewal task of a lock whose ticker interval is positive. The interval given
  to the ticker is the third of the lease, rounded down. Take the task still at its
  \<^verbatim>\<open>select\<close> after some rounds, with the lock \<open>l1\<close>: the key, the value and the lease
  are those the lock started with. On the next tick it issues the conditional write with
  \<open>last' l1\<close>, the Record it last obtained, as the previous pair and the lease as TTL
  (on a store that answers, the script is run on the encodings of that Record and of
  the new one and on the lease in seconds). When the write succeeds the new Record
  replaces \<open>last'\<close> and the task goes on; when it fails, with whatever error, the task
  returns, which closes \<^verbatim>\<open>lockHeld\<close>: the ticks that follow issue no write.
\<close>

theorem holdLock_renewal:
  assumes tick: "0 < heartbeat l"
    and before: "holdLock r l before = \<lparr>lock = l1, status = Renewing, issued = n, stores = cs\<rparr>"
  shows "heartbeat l * 3 \<le> ttl l \<and> ttl l < heartbeat l * 3 + 3
       \<and> key l1 = key l \<and> value' l1 = value' l \<and> ttl l1 = ttl l
       \<and> (snd (snd (fst (lockWrite r l1 t s))) = None \<longrightarrow>
            holdLock r l (before @ [Heartbeat t s])
              = \<lparr>lock = l1\<lparr>last' := Some \<lparr>Key = key l, Value = value' l, LastIndex = sequenceNum t\<rparr>\<rparr>,
                 status = Renewing, issued = Suc n, stores = cs @ [snd (lockWrite r l1 t s)]\<rparr>)
       \<and> (snd (snd (fst (lockWrite r l1 t s))) = Some e \<longrightarrow>
            holdLock r l (before @ Heartbeat t s # rounds)
              = \<lparr>lock = l1, status = Returned, issued = Suc n, stores = cs @ [snd (lockWrite r l1 t s)]\<rparr>)
       \<and> (last' l1 = Some p \<and> fault s = None \<and> Encode (codec r) (Some p) = Inr old
            \<and> Encode (codec r) (Some \<lparr>Key = key l, Value = value' l, LastIndex = sequenceNum t\<rparr>) = Inr new \<longrightarrow>
            snd (lockWrite r l1 t s)
              = s\<lparr>keyspace := snd (script r cmdCAS [normalize' (key l), old, new, formatSec (ttl l)] (keyspace s))\<rparr>)"
proof -
  have run: "holdLock_loop r l before 0 [] = \<lparr>lock = l1, status = Renewing, issued = n, stores = cs\<rparr>"
    using tick before by (simp add: holdLock_def)
  have fx: "key l1 = key l \<and> value' l1 = value' l \<and> ttl l1 = ttl l"
    using holdLock_loop_fixes [of r l before 0 "[]"] by (simp add: run)
  have app: "holdLock r l (before @ rs) = holdLock_loop r l1 rs n cs" for rs
    using tick by (simp add: holdLock_def holdLock_loop_append run)
  obtain ok item err c' where
    w: "AtomicPut r (key l) (value' l) (last' l1) (Some \<lparr>TTL = ttl l\<rparr>) t s = ((ok, item, err), c')"
    by (metis prod.exhaust)
  note shape = AtomicPut_shape [OF w]
  have good: "err = None \<Longrightarrow> holdLock r l (before @ [Heartbeat t s])
              = \<lparr>lock = l1\<lparr>last' := Some \<lparr>Key = key l, Value = value' l, LastIndex = sequenceNum t\<rparr>\<rparr>,
                 status = Renewing, issued = Suc n, stores = cs @ [c']\<rparr>"
    using shape by (simp add: app hold_def fx w)
  have bad: "err = Some e \<Longrightarrow> holdLock r l (before @ Heartbeat t s # rounds)
              = \<lparr>lock = l1, status = Returned, issued = Suc n, stores = cs @ [c']\<rparr>"
    by (simp add: app hold_def fx w)
  have pos: "ttl l \<noteq> 0"
    using heartbeat_third [OF tick] tick by auto
  have scr: "c' = s\<lparr>keyspace := snd (script r cmdCAS [normalize' (key l), old, new, formatSec (ttl l)] (keyspace s))\<rparr>"
    if a: "last' l1 = Some p \<and> fault s = None \<and> Encode (codec r) (Some p) = Inr old
            \<and> Encode (codec r) (Some \<lparr>Key = key l, Value = value' l, LastIndex = sequenceNum t\<rparr>) = Inr new"
  proof -
    have "snd (AtomicPut r (key l) (value' l) (last' l1) (Some \<lparr>TTL = ttl l\<rparr>) t s)
        = s\<lparr>keyspace := snd (script r cmdCAS [normalize' (key l), old, new, formatSec (expirationAfter (Some \<lparr>TTL = ttl l\<rparr>))] (keyspace s))\<rparr>"
      using a by (intro AtomicPut_cas_script [of _ p]) simp_all
    then show ?thesis using pos by (simp add: w expirationAfter_def)
  qed
  have weq: "lockWrite r l1 t s = ((ok, item, err), c')"
    using w by (simp add: fx)
  have g: "snd (snd (fst (lockWrite r l1 t s))) = None \<longrightarrow>
            holdLock r l (before @ [Heartbeat t s])
              = \<lparr>lock = l1\<lparr>last' := Some \<lparr>Key = key l, Value = value' l, LastIndex = sequenceNum t\<rparr>\<rparr>,
                 status = Renewing, issued = Suc n, stores = cs @ [snd (lockWrite r l1 t s)]\<rparr>"
    unfolding weq using good by simp
  have b: "snd (snd (fst (lockWrite r l1 t s))) = Some e \<longrightarrow>
            holdLock r l (before @ Heartbeat t s # rounds)
              = \<lparr>lock = l1, status = Returned, issued = Suc n, stores = cs @ [snd (lockWrite r l1 t s)]\<rparr>"
    unfolding weq using bad by simp
  have c: "last' l1 = Some p \<and> fault s = None \<and> Encode (codec r) (Some p) = Inr old
            \<and> Encode (codec r) (Some \<lparr>Key = key l, Value = value' l, LastIndex = sequenceNum t\<rparr>) = Inr new \<longrightarrow>
            snd (lockWrite r l1 t s)
              = s\<lparr>keyspace := snd (script r cmdCAS [normalize' (key l), old, new, formatSec (ttl l)] (keyspace s))\<rparr>"
    unfolding weq using scr by simp
  show ?thesis
    using heartbeat_third [OF tick] fx g b c by blast
qed

theorem holdLock_renewal_witness:
  "holdLock tokenStore held5 [Heartbeat 20000000009 mine5]
     = \<lparr>lock = held5\<lparr>last' := Some \<lparr>Key = ''/lock'', Value = ''me'', LastIndex = 9\<rparr>\<rparr>, status = Renewing,
        issued = 1, stores = [server [(''lock'', ''9:me'', Sec ''60'')]]\<rparr>
 \<and> holdLock tokenStore held5 [Heartbeat 20000000009 mine5, Heartbeat 40000000009 (server []),
        Heartbeat 60000000009 (server [(''lock'', ''9:me'', Sec ''60'')])]
     = \<lparr>lock = held5\<lparr>last' := Some \<lparr>Key = ''/lock'', Value = ''me'', LastIndex = 9\<rparr>\<rparr>, status = Returned,
        issued = 2, stores = [server [(''lock'', ''9:me'', Sec ''60'')], server []]\<rparr>
 \<and> heartbeat held5 * 3 \<le> 60000000000"
proof -
  have tick: "0 < heartbeat held5"
    by (simp add: heartbeat_def signed_divide_int_def run_defs2)
  have start: "holdLock tokenStore held5 [] = \<lparr>lock = held5, status = Renewing, issued = 0, stores = []\<rparr>"
    using tick by (simp add: holdLock_def)
  have w1: "lockWrite tokenStore held5 20000000009 mine5
      = ((True, Some \<lparr>Key = ''/lock'', Value = ''me'', LastIndex = 9\<rparr>, None), server [(''lock'', ''9:me'', Sec ''60'')])"
    by (simp add: run_defs2 signed_divide_int_def)
  have one: "holdLock tokenStore held5 [Heartbeat 20000000009 mine5]
     = \<lparr>lock = held5\<lparr>last' := Some \<lparr>Key = ''/lock'', Value = ''me'', LastIndex = 9\<rparr>\<rparr>, status = Renewing,
        issued = 1, stores = [server [(''lock'', ''9:me'', Sec ''60'')]]\<rparr>"
    using holdLock_renewal [OF tick start, of 20000000009 mine5] w1
    by (simp add: run_defs2)
  have w2: "lockWrite tokenStore (held5\<lparr>last' := Some \<lparr>Key = ''/lock'', Value = ''me'', LastIndex = 9\<rparr>\<rparr>) 40000000009 (server [])
      = ((False, None, Some ErrKeyNotFound), server [])"
    by (simp add: run_defs2 signed_divide_int_def)
  have two: "holdLock tokenStore held5 ([Heartbeat 20000000009 mine5] @ Heartbeat 40000000009 (server []) #
        [Heartbeat 60000000009 (server [(''lock'', ''9:me'', Sec ''60'')])])
     = \<lparr>lock = held5\<lparr>last' := Some \<lparr>Key = ''/lock'', Value = ''me'', LastIndex = 9\<rparr>\<rparr>, status = Returned,
        issued = 2, stores = [server [(''lock'', ''9:me'', Sec ''60'')], server []]\<rparr>"
    using holdLock_renewal [OF tick one, of 40000000009 "server []" ErrKeyNotFound] w2
    by simp
  have third: "heartbeat held5 * 3 \<le> 60000000000"
    using holdLock_renewal [OF tick start] by (simp add: run_defs2)
  show ?thesis using one two third by simp
qed

section \<open>Releasing the lock\<close>

lemma AtomicDelete_cad_script:
  assumes "fault c = None" "Encode (codec r) previous = Inr old"
  shows "snd (AtomicDelete r k previous c)
       = c\<lparr>keyspace := snd (script r cmdCAD [normalize' k, old] (keyspace c))\<rparr>"
  using assms
  by (auto simp: AtomicDelete_def cad_def runScript_def script_Run_def split: prod.splits sum.splits option.splits)

text \<open>
  C8 (as amended): \<^verbatim>\<open>Unlock\<close> of a lock whose renewal task is at its \<^verbatim>\<open>select\<close>. The
  task takes the signal and returns without a further write. \<^verbatim>\<open>Unlock\<close> then issues
  the check-and-delete with \<open>last'\<close>, the Record last obtained (on a store that answers,
  the script is run on the encoding of that Record). When the check-and-delete succeeds,
  \<open>last'\<close> becomes nil; when it fails, \<^verbatim>\<open>Unlock\<close> returns the error and the lock is
  left as it was.
\<close>

theorem Unlock_clears_on_success:
  "(\<exists>res l' c'. Unlock r l True c = Some (res, l', c')
       \<and> res = snd (fst (AtomicDelete r (key l) (last' l) c))
       \<and> c' = snd (AtomicDelete r (key l) (last' l) c)
       \<and> (res = None \<longrightarrow> l' = l\<lparr>last' := None\<rparr>)
       \<and> (res \<noteq> None \<longrightarrow> l' = l))
 \<and> (fault c = None \<and> Encode (codec r) (last' l) = Inr old \<longrightarrow>
       snd (AtomicDelete r (key l) (last' l) c)
         = c\<lparr>keyspace := snd (script r cmdCAD [normalize' (key l), old] (keyspace c))\<rparr>)
 \<and> (status (holdLock_loop r l0 before n cs) = Renewing \<longrightarrow>
       holdLock_loop r l0 (before @ UnlockSignal # rounds) n cs
         = (holdLock_loop r l0 before n cs)\<lparr>status := Returned\<rparr>)"
proof (intro conjI impI)
  show "\<exists>res l' c'. Unlock r l True c = Some (res, l', c')
       \<and> res = snd (fst (AtomicDelete r (key l) (last' l) c))
       \<and> c' = snd (AtomicDelete r (key l) (last' l) c)
       \<and> (res = None \<longrightarrow> l' = l\<lparr>last' := None\<rparr>)
       \<and> (res \<noteq> None \<longrightarrow> l' = l)"
    by (auto simp: Unlock_def split: prod.splits option.splits)
next
  assume "fault c = None \<and> Encode (codec r) (last' l) = Inr old"
  then show "snd (AtomicDelete r (key l) (last' l) c)
         = c\<lparr>keyspace := snd (script r cmdCAD [normalize' (key l), old] (keyspace c))\<rparr>"
    by (intro AtomicDelete_cad_script) simp_all
next
  assume "status (holdLock_loop r l0 before n cs) = Renewing"
  then show "holdLock_loop r l0 (before @ UnlockSignal # rounds) n cs
         = (holdLock_loop r l0 before n cs)\<lparr>status := Returned\<rparr>"
    by (simp add: holdLock_loop_append)
qed


theorem Unlock_clears_on_success_witness:
  "Unlock tokenStore held5 True mine5 = Some (None, held5\<lparr>last' := None\<rparr>, server [])
 \<and> holdLock_loop tokenStore held5 [UnlockSignal, Heartbeat 20000000009 mine5] 0 []
     = \<lparr>lock = held5, status = Returned, issued = 0, stores = []\<rparr>"
proof -
  have d: "AtomicDelete tokenStore (key held5) (last' held5) mine5 = ((True, None), server [])"
    by (simp add: run_defs2)
  have h: "holdLock_loop tokenStore held5 [] 0 [] = \<lparr>lock = held5, status = Renewing, issued = 0, stores = []\<rparr>"
    by simp
  show ?thesis
    using Unlock_clears_on_success [of tokenStore held5 mine5 _ held5 "[]" 0 "[]" "[Heartbeat 20000000009 mine5]"] d
    by (auto simp: h)
qed


text \<open>
  The claim as it is written fails when the check-and-delete fails: with the key gone
  from the store (the lease ran out), taken over by another holder, or with the
  connection broken, \<^verbatim>\<open>Unlock\<close> returns the error and \<open>last'\<close> keeps the old Record.
\<close>

theorem Unlock_keeps_last_counterexample:
  "Unlock tokenStore held5 True (server []) = Some (Some ErrKeyNotFound, held5, server [])
 \<and> Unlock tokenStore held5 True otherHolds = Some (Some ErrKeyModified, held5, otherHolds)
 \<and> Unlock tokenStore held5 True (mine5\<lparr>fault := Some ''EOF''\<rparr>)
     = Some (Some (Underlying (Failure ''EOF'')), held5, mine5\<lparr>fault := Some ''EOF''\<rparr>)
 \<and> last' held5 = Some \<lparr>Key = ''/lock'', Value = ''me'', LastIndex = 5\<rparr>"
  by (simp add: Unlock_def run_defs2)

end
